theory Spec2Isabelle
  imports Main
begin

section \<open>Values, errors and the external world\<close>

text \<open>
  The research loop of \<^verbatim>\<open>app.py\<close> handles decoded JSON throughout: search results,
  the Planner's decoded answers and the Summaries. Inside a decoded value Python's
  \<^verbatim>\<open>None\<close> is \<open>JNull\<close> and a \<^verbatim>\<open>dict\<close> is an association list in insertion
  order; a function that returns \<^verbatim>\<open>None\<close> or a value returns an \<open>option\<close>.
\<close>

datatype json =
    JNull
  | JBool bool
  | JInt int
  | JStr string
  | JArr "json list"
  | JObj "(string \<times> json) list"

text \<open>
  Exceptions are values. \<open>External c\<close> is an exception raised by a collaborator
  outside the repository (the HTTP client, the websocket, the chat transport); \<open>c\<close>
  is its \<^verbatim>\<open>status_code\<close> attribute when it has one.
\<close>

datatype error =
    KeyError
  | IndexError
  | TypeError
  | JSONDecodeError
  | External "nat option"

text \<open>
  The calls that leave the process are recorded, in the order in which the sequential
  code issues them. \<open>Browse u\<close> marks one invocation of \<^verbatim>\<open>get_article_summaries\<close>
  on the Planner's answer \<open>u\<close>; the page fetches and summarisation chats inside it run
  concurrently and are not sequenced in the trace.
\<close>

datatype event =
    Notify string
  | PrivateChat "string option" "string option"
  | BingSearch json
  | Browse string
  | StreamChat "string option"

type_synonym 'a run = "(error + 'a) \<times> event list"

type_synonym search_result = "(string \<times> json) list"

type_synonym sink = "string \<Rightarrow> error + unit"

type_synonym registry = "string \<rightharpoonup> sink"

text \<open>
  The collaborators, as functions of the research round \<open>n\<close> in which they are asked and
  of the call's arguments:
  \<^item> \<open>prompts\<close>: the dictionary of the module \<^verbatim>\<open>prompts\<close>, which is not part of the
    sources;
  \<^item> \<open>json_loads\<close>, \<open>json_dumps\<close>: \<^verbatim>\<open>json.loads\<close> (\<open>None\<close> when it raises) and
    \<^verbatim>\<open>json.dumps\<close> with its \<^verbatim>\<open>indent\<close>;
  \<^item> \<open>bing_request\<close>: the body of the \<^verbatim>\<open>try\<close> in \<^verbatim>\<open>search_bing\<close>, the list under
    \<^verbatim>\<open>webPages.value\<close> or the exception raised;
  \<^item> \<open>private_chat\<close>: \<^verbatim>\<open>send_private_chat\<close> with its \<^verbatim>\<open>system_preamble\<close> and
    \<^verbatim>\<open>system_message\<close>;
  \<^item> \<open>http_get\<close>: \<^verbatim>\<open>requests.get\<close> on a page, giving the status code and the content,
    and \<open>paragraph_text\<close>: the joined text of the \<^verbatim>\<open>p\<close> elements of a content;
  \<^item> \<open>finish_time\<close>: when the \<open>i\<close>-th concurrent task of round \<open>n\<close> completes;
  \<^item> \<open>clients\<close>: the process-wide dictionary \<^verbatim>\<open>clients\<close> as it stands in round \<open>n\<close>;
  \<^item> \<open>stream_chat\<close>: the user-facing \<^verbatim>\<open>stream_chat_request\<close> with its
    \<^verbatim>\<open>system_preamble\<close>.
\<close>

record world =
  prompts :: "string \<Rightarrow> string"
  json_loads :: "string \<Rightarrow> json option"
  json_dumps :: "nat option \<Rightarrow> json \<Rightarrow> string"
  bing_request :: "nat \<Rightarrow> json \<Rightarrow> error + search_result list"
  private_chat :: "nat \<Rightarrow> string option \<Rightarrow> string option \<Rightarrow> error + string"
  http_get :: "nat \<Rightarrow> json \<Rightarrow> error + nat \<times> string"
  paragraph_text :: "string \<Rightarrow> string"
  finish_time :: "nat \<Rightarrow> nat \<Rightarrow> nat"
  clients :: "nat \<Rightarrow> registry"
  stream_chat :: "string option \<Rightarrow> error + string"

subsection \<open>Sequencing calls that may raise\<close>

definition ok :: "'a \<Rightarrow> 'a run" where
  "ok x = (Inr x, [])"

definition call :: "event \<Rightarrow> error + 'a \<Rightarrow> 'a run" where
  "call ev r = (r, [ev])"

definition bind :: "'a run \<Rightarrow> ('a \<Rightarrow> 'b run) \<Rightarrow> 'b run" where
  "bind m f =
     (case m of
        (Inl e, t) \<Rightarrow> (Inl e, t)
      | (Inr x, t) \<Rightarrow> (case f x of (r, t') \<Rightarrow> (r, t @ t')))"

text \<open>
  Python's \<^verbatim>\<open>for x in v\<close> over a decoded value: a list gives its items, a string
  its characters, a dictionary its keys; anything else is not iterable.
\<close>

fun py_iter :: "json \<Rightarrow> error + json list" where
  "py_iter (JArr xs) = Inr xs"
| "py_iter (JStr s) = Inr (map (\<lambda>c. JStr [c]) s)"
| "py_iter (JObj kvs) = Inr (map (\<lambda>kv. JStr (fst kv)) kvs)"
| "py_iter _ = Inl TypeError"

section \<open>Status channel\<close>

text \<open>
  \<^verbatim>\<open>ws\<close> stores the socket under a fresh id when a connection opens, and its
  \<^verbatim>\<open>finally\<close> block deletes the entry when the receive loop ends.
\<close>

definition ws_open :: "string \<Rightarrow> sink \<Rightarrow> registry \<Rightarrow> registry" where
  "ws_open page_instance_id sock cl = cl(page_instance_id \<mapsto> sock)"

definition ws_closed :: "string \<Rightarrow> registry \<Rightarrow> registry" where
  "ws_closed page_instance_id cl =
     (if page_instance_id \<in> dom cl then cl(page_instance_id := None) else cl)"

text \<open>\<^verbatim>\<open>await clients[page_instance_id].send(message)\<close>\<close>

definition set_status_message :: "registry \<Rightarrow> string \<Rightarrow> string \<Rightarrow> error + unit" where
  "set_status_message cl message page_instance_id =
     (case cl page_instance_id of
        None \<Rightarrow> Inl KeyError
      | Some sock \<Rightarrow> sock message)"

definition notify :: "world \<Rightarrow> nat \<Rightarrow> string \<Rightarrow> string \<Rightarrow> unit run" where
  "notify w n message page_instance_id =
     call (Notify message) (set_status_message (clients w n) message page_instance_id)"

section \<open>Evidence gatherer: searching\<close>

definition search_bing :: "world \<Rightarrow> nat \<Rightarrow> json \<Rightarrow> search_result list option" where
  "search_bing w n search =
     (case bing_request w n search of
        Inl e \<Rightarrow> None
      | Inr search_results \<Rightarrow> Some search_results)"

definition proparray :: "string list" where
  "proparray =
     [''dateLastCrawled'', ''language'', ''richFacts'', ''isNavigational'',
      ''isFamilyFriendly'', ''displayUrl'', ''searchTags'', ''noCache'', ''cachedPageUrl'',
      ''datePublishedDisplayText'', ''datePublished'', ''id'', ''primaryImageOfPage'',
      ''thumbnailUrl'']"

definition dict_has :: "string \<Rightarrow> search_result \<Rightarrow> bool" where
  "dict_has k obj = (k \<in> fst ` set obj)"

definition dict_del :: "string \<Rightarrow> search_result \<Rightarrow> search_result" where
  "dict_del k obj = filter (\<lambda>kv. fst kv \<noteq> k) obj"

text \<open>
  \<^verbatim>\<open>for prop in proparray: if prop in obj: del obj[prop]\<close>
\<close>

definition strip_props :: "search_result \<Rightarrow> search_result" where
  "strip_props obj =
     fold (\<lambda>prop obj. if dict_has prop obj then dict_del prop obj else obj) proparray obj"

text \<open>
  What \<^verbatim>\<open>get_search_results\<close> returns: \<^verbatim>\<open>None\<close> when the loop body never runs, the
  string \<^verbatim>\<open>"Search error."\<close>, or the list \<^verbatim>\<open>allresults\<close>.
\<close>

datatype search_outcome =
    ReturnsNone
  | SearchErrorString
  | Results "search_result list"

text \<open>
  The \<^verbatim>\<open>for search in searches\<close> loop, with \<^verbatim>\<open>allresults\<close> as the accumulator. In the
  source the stripping pass and \<^verbatim>\<open>return allresults\<close> are indented into the
  \<^verbatim>\<open>else\<close> branch of the loop body, so both branches of the body return and the loop
  never reaches the queries in \<open>rest\<close>.
\<close>

fun search_loop ::
  "world \<Rightarrow> nat \<Rightarrow> search_result list option \<Rightarrow> json list \<Rightarrow> search_outcome run" where
  "search_loop w n allresults [] = ok ReturnsNone"
| "search_loop w n allresults (search # rest) =
     bind (call (BingSearch search) (Inr (search_bing w n search))) (\<lambda>results.
       case results of
         None \<Rightarrow> ok SearchErrorString
       | Some results \<Rightarrow>
           (let allresults =
              (case allresults of None \<Rightarrow> results | Some earlier \<Rightarrow> earlier @ results)
            in ok (Results (map strip_props allresults))))"

definition get_search_results :: "world \<Rightarrow> nat \<Rightarrow> json \<Rightarrow> search_outcome run" where
  "get_search_results w n searches =
     (case py_iter searches of
        Inl e \<Rightarrow> (Inl e, [])
      | Inr queries \<Rightarrow> search_loop w n None queries)"

section \<open>Research planner\<close>

text \<open>
  \<^verbatim>\<open>identify_searches\<close>: the instruction depends on whether Summaries are given; the
  answer \<^verbatim>\<open>"No searches required."\<close> gives \<^verbatim>\<open>None\<close>; any other answer is bracketed
  and decoded. \<^verbatim>\<open>searches[0]\<close> on the empty string raises \<^verbatim>\<open>IndexError\<close>. The
  decoded text begins with \<^verbatim>\<open>[\<close>, so the value returned in the second case is a list
  and never \<^verbatim>\<open>None\<close>.
\<close>

definition identify_preamble :: "world \<Rightarrow> json list option \<Rightarrow> string" where
  "identify_preamble w Summaries =
     (case Summaries of
        None \<Rightarrow> prompts w ''identify_searches''
      | Some S \<Rightarrow>
          prompts w ''identify_additional_searches'' @ json_dumps w (Some 4) (JArr S)
            @ ''\<newline>\<newline>Original System Prompt:\<newline>'')"

definition add_brackets :: "string \<Rightarrow> error + string" where
  "add_brackets searches =
     (case searches of
        [] \<Rightarrow> Inl IndexError
      | c # _ \<Rightarrow>
          (let searches = (if c \<noteq> CHR ''['' then ''['' @ searches else searches);
               searches = (if last searches \<noteq> CHR '']'' then searches @ '']'' else searches)
           in Inr searches))"

definition identify_searches :: "world \<Rightarrow> nat \<Rightarrow> json list option \<Rightarrow> json option run" where
  "identify_searches w n Summaries =
     (let system_preamble = identify_preamble w Summaries in
      bind (call (PrivateChat (Some system_preamble) None)
              (private_chat w n (Some system_preamble) None)) (\<lambda>searches.
        if searches = ''No searches required.'' then ok None
        else
          (case add_brackets searches of
             Inl e \<Rightarrow> (Inl e, [])
           | Inr searches \<Rightarrow>
               (case json_loads w searches of
                  None \<Rightarrow> (Inl JSONDecodeError, [])
                | Some searches \<Rightarrow> ok (Some searches)))))"

definition get_urls_to_browse :: "world \<Rightarrow> nat \<Rightarrow> json \<Rightarrow> string run" where
  "get_urls_to_browse w n searches =
     bind (get_search_results w n searches) (\<lambda>searchresults.
       case searchresults of
         SearchErrorString \<Rightarrow> ok ''Search error.''
       | _ \<Rightarrow>
           (let strsearchresults =
              json_dumps w (Some 4)
                (case searchresults of Results rs \<Rightarrow> JArr (map JObj rs) | _ \<Rightarrow> JNull);
                system_preamble =
                  prompts w ''get_urls_to_browse'' @ strsearchresults
                    @ ''\<newline>\<newline>Original System Prompt:\<newline>''
            in call (PrivateChat None (Some system_preamble))
                 (private_chat w n None (Some system_preamble))))"

definition is_background_info_sufficient :: "world \<Rightarrow> nat \<Rightarrow> json list \<Rightarrow> bool run" where
  "is_background_info_sufficient w n Summaries =
     (let strSummaries = json_dumps w (Some 4) (JArr Summaries);
          system_preamble =
            prompts w ''is_background_info_sufficient'' @ strSummaries
              @ ''\<newline>\<newline>Original System Prompt:\<newline>''
      in bind (call (PrivateChat (Some system_preamble) None)
                 (private_chat w n (Some system_preamble) None)) (\<lambda>response.
           if response = ''More information needed.'' then ok False else ok True))"

section \<open>Evidence gatherer: browsing and summarising\<close>

definition fetch_and_parse_url :: "world \<Rightarrow> nat \<Rightarrow> json \<Rightarrow> error + string option" where
  "fetch_and_parse_url w n url =
     (case http_get w n url of
        Inl e \<Rightarrow> Inl e
      | Inr (status_code, content) \<Rightarrow>
          if status_code = 200 then Inr (Some (paragraph_text w content)) else Inr None)"

definition summary_prompt :: "string \<Rightarrow> string \<Rightarrow> string" where
  "summary_prompt URL page_content =
     ''The Original System Prompt that follows is your primary objective, ''
     @ ''but for this chat you identified the following URL for further research ''
     @ ''to give your answer: '' @ URL
     @ ''. Your task now is to provide a summary of relevant content on the page ''
     @ ''that will help us address the feedback on the URL provided by the user ''
     @ ''and document current sources. Return nothing except your summary of the ''
     @ ''key points and any important quotes the content on the page in a single string.''
     @ ''\<newline>\<newline>Page Content:\<newline>\<newline>'' @ page_content
     @ ''\<newline>\<newline>Original System Prompt:\<newline>\<newline>''"

definition summary_text :: "world \<Rightarrow> string \<Rightarrow> string \<Rightarrow> string" where
  \<open>summary_text w URL summary =
     ''{"URL" : "'' @ URL @ ''",\<newline>"summary" : '' @ json_dumps w None (JStr summary) @ ''}''\<close>

text \<open>
  \<^verbatim>\<open>process_url\<close>, the task run for one URL: \<open>Inr None\<close> is its \<^verbatim>\<open>return None\<close>,
  \<open>Inr (Some s)\<close> its \<^verbatim>\<open>return summary\<close> (decoded from a text that begins with
  \<^verbatim>\<open>{\<close>, hence a dictionary and never \<^verbatim>\<open>None\<close>). Nothing in the task catches an
  exception. Concatenating a URL that is not a string raises \<^verbatim>\<open>TypeError\<close>.
\<close>

definition process_url :: "world \<Rightarrow> nat \<Rightarrow> json \<Rightarrow> error + json option" where
  "process_url w n URL =
     (case fetch_and_parse_url w n URL of
        Inl e \<Rightarrow> Inl e
      | Inr None \<Rightarrow> Inr None
      | Inr (Some page_content) \<Rightarrow>
          (case URL of
             JStr u \<Rightarrow>
               (case private_chat w n None (Some (summary_prompt u page_content)) of
                  Inl e \<Rightarrow> Inl e
                | Inr summary \<Rightarrow>
                    (case json_loads w (summary_text w u summary) of
                       None \<Rightarrow> Inl JSONDecodeError
                     | Some summary \<Rightarrow> Inr (Some summary)))
           | _ \<Rightarrow> Inl TypeError))"

text \<open>
  \<^verbatim>\<open>asyncio.gather(*tasks)\<close> with its default \<^verbatim>\<open>return_exceptions=False\<close>. The tasks
  complete one after the other in the order \<open>order\<close>; each completion stores the task's
  value in the slot of the task's position, and the first completion that is an
  exception is raised to the awaiting caller. When all have completed the slots are read
  in the order of the positions.
\<close>

fun collect :: "nat list \<Rightarrow> (error + 'a) list \<Rightarrow> 'a option list \<Rightarrow> error + 'a option list" where
  "collect [] tasks slots = Inr slots"
| "collect (i # order) tasks slots =
     (case tasks ! i of
        Inl e \<Rightarrow> Inl e
      | Inr v \<Rightarrow> collect order tasks (slots[i := Some v]))"

text \<open>
  The completion order is the order of the tasks' finish times (tasks that finish
  together complete in the order of submission), so every task completes exactly once
  and every index read by \<open>collect\<close> is a position of \<open>tasks\<close>.
\<close>

definition completion_order :: "(nat \<Rightarrow> nat) \<Rightarrow> nat \<Rightarrow> nat list" where
  "completion_order finish k = sort_key finish [0..<k]"

definition asyncio_gather :: "(nat \<Rightarrow> nat) \<Rightarrow> (error + 'a) list \<Rightarrow> error + 'a list" where
  "asyncio_gather finish tasks =
     (case collect (completion_order finish (length tasks)) tasks
             (replicate (length tasks) None) of
        Inl e \<Rightarrow> Inl e
      | Inr slots \<Rightarrow> Inr (List.map_filter (\<lambda>slot. slot) slots))"

text \<open>
  \<^verbatim>\<open>get_article_summaries\<close>: decode the Planner's answer, start one task per item, join
  them, and keep the results that are not \<^verbatim>\<open>None\<close>.
\<close>

definition get_article_summaries :: "world \<Rightarrow> nat \<Rightarrow> string \<Rightarrow> error + json list" where
  "get_article_summaries w n URLsToBrowse =
     (case json_loads w URLsToBrowse of
        None \<Rightarrow> Inl JSONDecodeError
      | Some URLsToBrowse \<Rightarrow>
          (case py_iter URLsToBrowse of
             Inl e \<Rightarrow> Inl e
           | Inr URLs \<Rightarrow>
               (case asyncio_gather (finish_time w n) (map (process_url w n) URLs) of
                  Inl e \<Rightarrow> Inl e
                | Inr results \<Rightarrow> Inr (List.map_filter (\<lambda>summary. summary) results))))"

section \<open>Research loop orchestrator\<close>

text \<open>
  \<^verbatim>\<open>search_and_add_background_references\<close> reads the session id from
  \<^verbatim>\<open>request_body["page_instance_id"]\<close>; here it is the argument
  \<open>page_instance_id\<close>. One pass through the body of \<^verbatim>\<open>while NeedsMoreSummaries\<close>: it returns from the
  function, leaves the loop with the Summaries, or goes round again with them. The call
  of \<^verbatim>\<open>identify_searches\<close> in the source has no third argument.
\<close>

datatype round_result =
    Return "string option"
  | Break "json list"
  | Continue "json list"

definition research_round ::
  "world \<Rightarrow> string \<Rightarrow> nat \<Rightarrow> json list option \<Rightarrow> round_result run" where
  "research_round w page_instance_id n Summaries =
     bind (identify_searches w n None) (\<lambda>searches.
       case searches of
         None \<Rightarrow>
           bind (notify w n ''Generating answer...'' page_instance_id) (\<lambda>_. ok (Return None))
       | Some searches \<Rightarrow>
           bind (notify w n ''Searching...'' page_instance_id) (\<lambda>_.
           bind (get_urls_to_browse w n searches) (\<lambda>URLsToBrowse.
             if URLsToBrowse = ''Search error.'' then ok (Return (Some ''Search error.''))
             else
               bind (notify w n ''Browsing and analyzing...'' page_instance_id) (\<lambda>_.
               bind (call (Browse URLsToBrowse) (get_article_summaries w n URLsToBrowse))
                 (\<lambda>newSummaries.
                 let Summaries =
                   (case Summaries of
                      None \<Rightarrow> newSummaries
                    | Some Summaries \<Rightarrow> Summaries @ newSummaries)
                 in
                   bind (notify w n ''Double checking sources...'' page_instance_id) (\<lambda>_.
                   bind (is_background_info_sufficient w n Summaries) (\<lambda>AreWeDone.
                     if AreWeDone then ok (Break Summaries)
                     else ok (Continue Summaries))))))))"

text \<open>The code after the loop.\<close>

definition after_loop :: "world \<Rightarrow> string \<Rightarrow> nat \<Rightarrow> json list \<Rightarrow> string option run" where
  "after_loop w page_instance_id n Summaries =
     bind (notify w n ''Generating answer...'' page_instance_id) (\<lambda>_.
       ok (Some (prompts w ''background_info_preamble''
                   @ json_dumps w (Some 4) (JArr Summaries)
                   @ ''\<newline>\<newline>Original System Prompt:\<newline>\<newline>'')))"

text \<open>
  The loop has no bound, so it is a partial function: \<open>None\<close> is a run that never
  returns. \<open>n\<close> counts the rounds and \<open>tr\<close> is the trace so far.
\<close>

partial_function (option) research_loop ::
  "world \<Rightarrow> string \<Rightarrow> nat \<Rightarrow> json list option \<Rightarrow> event list
     \<Rightarrow> ((error + string option) \<times> event list) option" where
  "research_loop w page_instance_id n Summaries tr =
     (case research_round w page_instance_id n Summaries of
        (Inl e, t) \<Rightarrow> Some (Inl e, tr @ t)
      | (Inr (Return r), t) \<Rightarrow> Some (Inr r, tr @ t)
      | (Inr (Break S), t) \<Rightarrow>
          (case after_loop w page_instance_id n S of (r, t') \<Rightarrow> Some (r, tr @ t @ t'))
      | (Inr (Continue S), t) \<Rightarrow>
          research_loop w page_instance_id (Suc n) (Some S) (tr @ t))"

definition search_and_add_background_references ::
  "world \<Rightarrow> string \<Rightarrow> ((error + string option) \<times> event list) option" where
  "search_and_add_background_references w page_instance_id =
     research_loop w page_instance_id 0 None []"

section \<open>Answer emission at the request boundary\<close>

datatype response =
    JsonLines string
  | JsonError error nat

text \<open>\<^verbatim>\<open>ex.status_code\<close> when the exception has one, else 500.\<close>

fun status_of :: "error \<Rightarrow> nat" where
  "status_of (External (Some c)) = c"
| "status_of _ = 500"

definition conversation_internal :: "world \<Rightarrow> string \<Rightarrow> (response \<times> event list) option" where
  "conversation_internal w page_instance_id =
     (case search_and_add_background_references w page_instance_id of
        None \<Rightarrow> None
      | Some (Inl ex, t) \<Rightarrow> Some (JsonError ex (status_of ex), t)
      | Some (Inr system_preamble, t) \<Rightarrow>
          (let preamble =
             (if system_preamble \<noteq> Some ''Search error.'' then system_preamble
              else Some (prompts w ''search_error_preamble''))
           in case stream_chat w preamble of
                Inl ex \<Rightarrow> Some (JsonError ex (status_of ex), t @ [StreamChat preamble])
              | Inr result \<Rightarrow> Some (JsonLines result, t @ [StreamChat preamble])))"

section \<open>A concrete world\<close>

text \<open>
  Worlds in which every collaborator answers: the Planner proposes the query
  \<^verbatim>\<open>"q"\<close> without brackets, the provider returns one result per query, the Planner
  chooses the URL \<^verbatim>\<open>u\<close>, the page is fetched and summarised as \<^verbatim>\<open>s\<close>, and the
  observer \<^verbatim>\<open>s\<close> is connected. The sufficiency check passes in the rounds \<open>n\<close> with
  \<open>enough n\<close>; in \<open>demo_world\<close> it never passes. The other worlds change one
  collaborator of \<open>demo_world\<close>.
\<close>

definition demo_loads :: "string \<Rightarrow> json option" where
  \<open>demo_loads s =
     (if s = ''["q"]'' then Some (JArr [JStr ''q''])
      else if s = ''["u"]'' then Some (JArr [JStr ''u''])
      else if s = ''["u", "v", "x"]'' then Some (JArr [JStr ''u'', JStr ''v'', JStr ''x''])
      else if s = ''{"URL" : "u",\<newline>"summary" : s}''
        then Some (JObj [(''URL'', JStr ''u''), (''summary'', JStr ''s'')])
      else if s = ''{"URL" : "x",\<newline>"summary" : s}''
        then Some (JObj [(''URL'', JStr ''x''), (''summary'', JStr ''s'')])
      else None)\<close>

definition demo_dumps :: "nat option \<Rightarrow> json \<Rightarrow> string" where
  "demo_dumps indent v =
     (case v of JStr s \<Rightarrow> s | JArr xs \<Rightarrow> replicate (length xs) (CHR ''#'') | _ \<Rightarrow> ''null'')"

definition demo_chat ::
  "(nat \<Rightarrow> bool) \<Rightarrow> nat \<Rightarrow> string option \<Rightarrow> string option \<Rightarrow> error + string" where
  \<open>demo_chat enough n system_preamble system_message =
     (case (system_preamble, system_message) of
        (Some p, None) \<Rightarrow>
          if p = ''identify_searches'' then Inr ''"q"''
          else if enough n then Inr ''Sufficient.''
          else Inr ''More information needed.''
      | (None, Some m) \<Rightarrow>
          if take 3 m = ''get'' then Inr ''["u"]'' else Inr ''s''
      | _ \<Rightarrow> Inl (External None))\<close>

definition planned_world :: "(nat \<Rightarrow> bool) \<Rightarrow> world" where
  "planned_world enough =
     \<lparr> prompts = (\<lambda>k. k),
       json_loads = demo_loads,
       json_dumps = demo_dumps,
       bing_request = (\<lambda>n q. Inr [[(''name'', q), (''id'', JInt 1)]]),
       private_chat = demo_chat enough,
       http_get = (\<lambda>n u. Inr (200, ''page'')),
       paragraph_text = (\<lambda>c. c),
       finish_time = (\<lambda>n i. 0),
       clients = (\<lambda>n. [''s'' \<mapsto> (\<lambda>m. Inr ())]),
       stream_chat = (\<lambda>p. Inr ''answer'') \<rparr>"

definition demo_world :: world where
  "demo_world = planned_world (\<lambda>n. False)"

text \<open>The sufficiency check passes in the second round.\<close>

definition two_round_world :: world where
  "two_round_world = planned_world (\<lambda>n. 0 < n)"

text \<open>
  Three URLs: the page \<^verbatim>\<open>v\<close> answers 404, and the tasks complete in the reverse of
  the order of submission.
\<close>

definition three_urls :: string where
  \<open>three_urls = ''["u", "v", "x"]''\<close>

definition three_pages_world :: world where
  "three_pages_world =
     demo_world
       \<lparr> http_get := (\<lambda>n url. if url = JStr ''v'' then Inr (404, []) else Inr (200, ''page'')),
         finish_time := (\<lambda>n i. 3 - i) \<rparr>"


text \<open>The Planner answers every question with \<^verbatim>\<open>No searches required.\<close>\<close>

definition no_search_world :: world where
  "no_search_world = demo_world \<lparr> private_chat := (\<lambda>n p m. Inr ''No searches required.'') \<rparr>"

text \<open>The same, after the observer has disconnected.\<close>

definition unobserved_world :: world where
  "unobserved_world = no_search_world \<lparr> clients := (\<lambda>n. ws_closed ''s'' [''s'' \<mapsto> (\<lambda>m. Inr ())]) \<rparr>"

text \<open>The Planner's answer is the empty string.\<close>

definition silent_world :: world where
  "silent_world = demo_world \<lparr> private_chat := (\<lambda>n p m. Inr []) \<rparr>"

text \<open>The search provider is down.\<close>

definition provider_down_world :: world where
  "provider_down_world = demo_world \<lparr> bing_request := (\<lambda>n q. Inl (External (Some 503))) \<rparr>"

text \<open>The Summary of the page \<^verbatim>\<open>u\<close>, and the calls of one round with \<open>k\<close> Summaries.\<close>

definition demo_summary :: json where
  "demo_summary = JObj [(''URL'', JStr ''u''), (''summary'', JStr ''s'')]"

definition demo_round_trace :: "nat \<Rightarrow> event list" where
  \<open>demo_round_trace k =
     [PrivateChat (Some ''identify_searches'') None,
      Notify ''Searching...'',
      BingSearch (JStr ''q''),
      PrivateChat None (Some ''get_urls_to_browse#\<newline>\<newline>Original System Prompt:\<newline>''),
      Notify ''Browsing and analyzing...'',
      Browse ''["u"]'',
      Notify ''Double checking sources...'',
      PrivateChat
        (Some (''is_background_info_sufficient'' @ replicate k (CHR ''#'')
                 @ ''\<newline>\<newline>Original System Prompt:\<newline>'')) None]\<close>

section \<open>Search results\<close>

lemma fold_dict_del:
  "fold (\<lambda>prop obj. if dict_has prop obj then dict_del prop obj else obj) ps obj
     = filter (\<lambda>kv. fst kv \<notin> set ps) obj"
proof (induction ps arbitrary: obj)
  case Nil
  show ?case by simp
next
  case (Cons p ps)
  have "(if dict_has p obj then dict_del p obj else obj) = dict_del p obj"
  proof (cases "dict_has p obj")
    case True
    then show ?thesis by simp
  next
    case False
    then have "\<forall>kv\<in>set obj. fst kv \<noteq> p" by (auto simp: dict_has_def)
    then have "filter (\<lambda>kv. fst kv \<noteq> p) obj = obj" by (simp add: filter_id_conv)
    with False show ?thesis by (simp add: dict_del_def)
  qed
  then show ?case
    using Cons.IH [of "dict_del p obj"] by (auto simp: dict_del_def intro: filter_cong)
qed

lemma strip_props_filter: "strip_props obj = filter (\<lambda>kv. fst kv \<notin> set proparray) obj"
  unfolding strip_props_def by (rule fold_dict_del)

text \<open>
  With a first query, the loop asks the provider for that query alone and returns.
\<close>

lemma search_loop_first:
  "search_loop w n None (search # rest) =
     (Inr (case bing_request w n search of
             Inl e \<Rightarrow> SearchErrorString
           | Inr results \<Rightarrow> Results (map strip_props results)),
      [BingSearch search])"
  by (simp add: bind_def call_def ok_def search_bing_def split: sum.splits)


lemma demo_search:
  "get_search_results demo_world n (JArr (q # rest))
     = (Inr (Results [[(''name'', q)]]), [BingSearch q])"
  by (simp add: get_search_results_def search_loop_first demo_world_def strip_props_filter
      planned_world_def proparray_def del: search_loop.simps)



text \<open>
  C1. Given the two queries \<^verbatim>\<open>a\<close> and \<^verbatim>\<open>b\<close>, for both of which the provider has a
  result, \<^verbatim>\<open>get_search_results\<close> issues the search for \<^verbatim>\<open>a\<close> only and returns the
  stripped results of \<^verbatim>\<open>a\<close> only.
\<close>

theorem only_first_query_searched:
  "get_search_results demo_world 0 (JArr [JStr ''a'', JStr ''b''])
     = (Inr (Results [[(''name'', JStr ''a'')]]), [BingSearch (JStr ''a'')])
   \<and> bing_request demo_world 0 (JStr ''b'') = Inr [[(''name'', JStr ''b''), (''id'', JInt 1)]]"
  by (simp add: demo_search) (simp add: demo_world_def planned_world_def)

section \<open>Status channel\<close>

text \<open>
  C8. Once the listener has removed the session, \<^verbatim>\<open>set_status_message\<close> raises
  \<^verbatim>\<open>KeyError\<close> to its caller; while the session is registered, the outcome of the
  sink's \<^verbatim>\<open>send\<close>, an exception included, is the outcome of
  \<^verbatim>\<open>set_status_message\<close>.
\<close>

theorem notify_outcome:
  "set_status_message (ws_closed i cl) message i = Inl KeyError
   \<and> set_status_message (ws_open i sock cl) message i = sock message"
  by (auto simp: set_status_message_def ws_closed_def ws_open_def split: option.splits)

theorem notify_raises_after_disconnect:
  "set_status_message (ws_closed ''s'' (ws_open ''s'' (\<lambda>m. Inr ()) Map.empty))
     ''Searching...'' ''s'' = Inl KeyError"
  by (simp add: set_status_message_def ws_closed_def ws_open_def)

section \<open>Browsing and summarising\<close>

lemma length_fold_update:
  "length (fold (\<lambda>i s. s[i := g i]) order slots) = length slots"
  by (induction order arbitrary: slots) simp_all

lemma nth_fold_update:
  "i < length slots \<Longrightarrow>
     fold (\<lambda>i s. s[i := g i]) order slots ! i = (if i \<in> set order then g i else slots ! i)"
proof (induction order arbitrary: slots)
  case Nil
  show ?case by simp
next
  case (Cons j order)
  from Cons.prems have "i < length (slots[j := g j])" by simp
  from Cons.IH [OF this] show ?case
    by (cases "i = j") (use Cons.prems in auto)
qed

lemma collect_returns:
  assumes "\<forall>i\<in>set order. i < length tasks"
    and "\<forall>t\<in>set tasks. \<exists>v. t = Inr v"
  shows "collect order tasks slots
           = Inr (fold (\<lambda>i s. s[i := Some (projr (tasks ! i))]) order slots)"
  using assms(1)
proof (induction order arbitrary: slots)
  case Nil
  show ?case by simp
next
  case (Cons j order)
  from Cons.prems have "j < length tasks" by simp
  with assms(2) obtain v where v: "tasks ! j = Inr v"
    using nth_mem by blast
  from Cons.prems have "\<forall>i\<in>set order. i < length tasks" by simp
  from Cons.IH [OF this] v show ?case by simp
qed



lemma set_completion_order: "set (completion_order finish k) = {0..<k}"
  by (simp add: completion_order_def)

lemma map_filter_Some: "List.map_filter (\<lambda>slot. slot) (map Some xs) = xs"
  by (induction xs) (simp_all add: map_filter_simps)

lemma asyncio_gather_returns:
  assumes "\<forall>t\<in>set tasks. \<exists>v. t = Inr v"
  shows "asyncio_gather finish tasks = Inr (map projr tasks)"
proof -
  let ?k = "length tasks"
  let ?g = "\<lambda>i. Some (projr (tasks ! i))"
  let ?slots = "fold (\<lambda>i s. s[i := ?g i]) (completion_order finish ?k) (replicate ?k None)"
  have c: "collect (completion_order finish ?k) tasks (replicate ?k None) = Inr ?slots"
    by (rule collect_returns) (simp_all add: set_completion_order assms)
  have "?slots = map Some (map projr tasks)"
  proof (rule nth_equalityI)
    show "length ?slots = length (map Some (map projr tasks))"
      by (simp add: length_fold_update)
  next
    fix i
    assume "i < length ?slots"
    then have i: "i < ?k" by (simp add: length_fold_update)
    then show "?slots ! i = map Some (map projr tasks) ! i"
      by (simp add: nth_fold_update set_completion_order)
  qed
  with c have "collect (completion_order finish ?k) tasks (replicate ?k None)
                 = Inr (map Some (map projr tasks))"
    by (simp only:)
  then show ?thesis
    by (simp only: asyncio_gather_def sum.case map_filter_Some)
qed



lemma kept_results:
  assumes "\<forall>u\<in>set URLs. \<exists>r. f u = Inr r"
  shows "List.map_filter (\<lambda>summary. summary) (map projr (map f URLs))
           = concat (map (\<lambda>u. case f u of Inr (Some s) \<Rightarrow> [s] | _ \<Rightarrow> []) URLs)"
  using assms
proof (induction URLs)
  case Nil
  show ?case by (simp add: map_filter_simps)
next
  case (Cons u URLs)
  then obtain r where "f u = Inr r" by auto
  with Cons show ?case
    by (cases r) (simp_all add: map_filter_simps)
qed

lemma article_summaries_returns:
  assumes "json_loads w URLsToBrowse = Some decoded"
    and "py_iter decoded = Inr URLs"
    and "\<forall>u\<in>set URLs. \<exists>r. process_url w n u = Inr r"
  shows "get_article_summaries w n URLsToBrowse
           = Inr (concat (map (\<lambda>u. case process_url w n u of
                                      Inr (Some s) \<Rightarrow> [s] | _ \<Rightarrow> []) URLs))"
proof -
  have "asyncio_gather (finish_time w n) (map (process_url w n) URLs)
          = Inr (map projr (map (process_url w n) URLs))"
    by (rule asyncio_gather_returns) (use assms(3) in auto)
  then show ?thesis
    using assms(1,2) kept_results [OF assms(3)]
    by (simp add: get_article_summaries_def)
qed


lemma process_url_None:
  "process_url w n u = Inr None \<longleftrightarrow> fetch_and_parse_url w n u = Inr None"
  by (auto simp: process_url_def split: sum.splits option.splits json.splits)






lemma three_pages_process:
  "process_url three_pages_world n (JStr ''u'')
     = Inr (Some (JObj [(''URL'', JStr ''u''), (''summary'', JStr ''s'')]))"
  "process_url three_pages_world n (JStr ''v'') = Inr None"
  "process_url three_pages_world n (JStr ''x'')
     = Inr (Some (JObj [(''URL'', JStr ''x''), (''summary'', JStr ''s'')]))"
  by (simp_all add: process_url_def fetch_and_parse_url_def three_pages_world_def
      demo_world_def planned_world_def demo_chat_def summary_prompt_def summary_text_def demo_dumps_def
      demo_loads_def)


lemma three_pages_loads:
  \<open>json_loads three_pages_world three_urls
     = Some (JArr [JStr ''u'', JStr ''v'', JStr ''x''])\<close>
  by (simp add: three_pages_world_def demo_world_def planned_world_def demo_loads_def three_urls_def)


lemma process_url_finish_time:
  "process_url (w\<lparr>finish_time := ft\<rparr>) n u = process_url w n u"
  by (simp add: process_url_def fetch_and_parse_url_def summary_text_def
      cong: sum.case_cong option.case_cong json.case_cong prod.case_cong if_cong)

text \<open>
  C10. Whenever no task raises, and whatever the order in which the tasks complete,
  \<^verbatim>\<open>get_article_summaries\<close> returns the Summaries in the order of the input URLs:
  each URL contributes its Summary, or nothing when its fetch gave \<^verbatim>\<open>None\<close>.
\<close>

theorem summaries_keep_input_order:
  assumes "json_loads w URLsToBrowse = Some decoded"
    and "py_iter decoded = Inr URLs"
    and "\<forall>u\<in>set URLs. \<exists>r. process_url w n u = Inr r"
  shows "(\<forall>ft. get_article_summaries (w\<lparr>finish_time := ft\<rparr>) n URLsToBrowse
                 = Inr (concat (map (\<lambda>u. case process_url w n u of
                                            Inr (Some s) \<Rightarrow> [s] | _ \<Rightarrow> []) URLs)))
       \<and> (\<forall>u. (process_url w n u = Inr None) = (fetch_and_parse_url w n u = Inr None))"
proof (intro conjI allI)
  fix ft
  have "json_loads (w\<lparr>finish_time := ft\<rparr>) URLsToBrowse = Some decoded"
    using assms(1) by simp
  moreover have "\<forall>u\<in>set URLs. \<exists>r. process_url (w\<lparr>finish_time := ft\<rparr>) n u = Inr r"
    using assms(3) by (simp add: process_url_finish_time)
  ultimately show "get_article_summaries (w\<lparr>finish_time := ft\<rparr>) n URLsToBrowse
                 = Inr (concat (map (\<lambda>u. case process_url w n u of
                                            Inr (Some s) \<Rightarrow> [s] | _ \<Rightarrow> []) URLs))"
    using article_summaries_returns [of "w\<lparr>finish_time := ft\<rparr>", OF _ assms(2)]
    by (simp add: process_url_finish_time)
next
  fix u
  show "(process_url w n u = Inr None) = (fetch_and_parse_url w n u = Inr None)"
    by (rule process_url_None)
qed

theorem summaries_keep_input_order_witness:
  "get_article_summaries three_pages_world 0 three_urls
     = Inr [JObj [(''URL'', JStr ''u''), (''summary'', JStr ''s'')],
            JObj [(''URL'', JStr ''x''), (''summary'', JStr ''s'')]]
   \<and> completion_order (finish_time three_pages_world 0) 3 = [2, 1, 0]"
proof -
  have i: "py_iter (JArr [JStr ''u'', JStr ''v'', JStr ''x''])
             = Inr [JStr ''u'', JStr ''v'', JStr ''x'']"
    by simp
  have a: "\<forall>u\<in>set [JStr ''u'', JStr ''v'', JStr ''x''].
             \<exists>r. process_url three_pages_world 0 u = Inr r"
    by (simp add: three_pages_process)
  have c: "completion_order (finish_time three_pages_world 0) 3 = [2, 1, 0]"
    by (simp add: completion_order_def three_pages_world_def demo_world_def planned_world_def
        upt_rec)
  have e: "three_pages_world\<lparr>finish_time := finish_time three_pages_world\<rparr>
             = three_pages_world"
    by simp
  have "get_article_summaries (three_pages_world\<lparr>finish_time := finish_time three_pages_world\<rparr>)
          0 three_urls
          = Inr (concat (map (\<lambda>u. case process_url three_pages_world 0 u of
                                      Inr (Some s) \<Rightarrow> [s] | _ \<Rightarrow> [])
                           [JStr ''u'', JStr ''v'', JStr ''x'']))"
    using summaries_keep_input_order [OF three_pages_loads i a] by blast
  with e c show ?thesis by (simp add: three_pages_process)
qed




section \<open>The research loop\<close>

lemma round_no_searches:
  assumes "identify_searches w n None = (Inr None, t)"
  shows "research_round w p n S =
           (case set_status_message (clients w n) ''Generating answer...'' p of
              Inl e \<Rightarrow> Inl e
            | Inr _ \<Rightarrow> Inr (Return None),
            t @ [Notify ''Generating answer...''])"
  using assms
  by (simp add: research_round_def bind_def notify_def call_def ok_def split: sum.splits)

lemma round_search_error:
  assumes "identify_searches w n None = (Inr (Some searches), t1)"
    and "set_status_message (clients w n) ''Searching...'' p = Inr ()"
    and "get_urls_to_browse w n searches = (Inr ''Search error.'', t2)"
  shows "research_round w p n S =
           (Inr (Return (Some ''Search error.'')), t1 @ Notify ''Searching...'' # t2)"
  using assms
  by (simp add: research_round_def bind_def notify_def call_def ok_def)

lemma round_complete:
  assumes "identify_searches w n None = (Inr (Some searches), t1)"
    and "set_status_message (clients w n) ''Searching...'' p = Inr ()"
    and "get_urls_to_browse w n searches = (Inr URLsToBrowse, t2)"
    and "URLsToBrowse \<noteq> ''Search error.''"
    and "set_status_message (clients w n) ''Browsing and analyzing...'' p = Inr ()"
    and "get_article_summaries w n URLsToBrowse = Inr newSummaries"
    and "set_status_message (clients w n) ''Double checking sources...'' p = Inr ()"
    and "is_background_info_sufficient w n
           (case S of None \<Rightarrow> newSummaries | Some Summaries \<Rightarrow> Summaries @ newSummaries)
           = (Inr AreWeDone, t3)"
  shows "research_round w p n S =
           (Inr ((if AreWeDone then Break else Continue)
                   (case S of None \<Rightarrow> newSummaries | Some Summaries \<Rightarrow> Summaries @ newSummaries)),
            t1 @ Notify ''Searching...'' # t2
              @ [Notify ''Browsing and analyzing...'', Browse URLsToBrowse,
                 Notify ''Double checking sources...''] @ t3)"
  using assms
  by (simp add: research_round_def bind_def notify_def call_def ok_def Let_def)

lemma loop_raises:
  "research_round w p n S = (Inl e, t) \<Longrightarrow> research_loop w p n S tr = Some (Inl e, tr @ t)"
  by (subst research_loop.simps) simp

lemma loop_Return:
  "research_round w p n S = (Inr (Return r), t) \<Longrightarrow>
     research_loop w p n S tr = Some (Inr r, tr @ t)"
  by (subst research_loop.simps) simp

lemma loop_Break:
  "research_round w p n S = (Inr (Break S'), t) \<Longrightarrow>
     research_loop w p n S tr =
       Some (fst (after_loop w p n S'), tr @ t @ snd (after_loop w p n S'))"
  by (subst research_loop.simps) (simp split: prod.splits)

lemma loop_Continue:
  "research_round w p n S = (Inr (Continue S'), t) \<Longrightarrow>
     research_loop w p n S tr = research_loop w p (Suc n) (Some S') (tr @ t)"
  by (subst research_loop.simps) simp

lemma loop_never_returns:
  assumes "\<And>n S. \<exists>S' t. research_round w p n S = (Inr (Continue S'), t)"
  shows "research_loop w p n S tr = None"
proof (rule ccontr)
  assume "research_loop w p n S tr \<noteq> None"
  then obtain y where y: "research_loop w p n S tr = Some y" by auto
  have "w' \<noteq> w \<or> p' \<noteq> p" if h: "research_loop w' p' n S tr = Some y" for w' p' n S tr y
  proof (rule research_loop.raw_induct
      [where P = "\<lambda>w' p' n S tr y. w' \<noteq> w \<or> p' \<noteq> p", OF _ h], goal_cases)
    case (1 loop w' p' n S tr y)
    show ?case
    proof (rule ccontr)
      assume "\<not> (w' \<noteq> w \<or> p' \<noteq> p)"
      then have eq: "w' = w" "p' = p" by simp_all
      from assms [of n S] obtain S' t where "research_round w p n S = (Inr (Continue S'), t)"
        by blast
      with 1(2) eq have "loop w p (Suc n) (Some S') (tr @ t) = Some y" by simp
      from 1(1) [OF this] show False by simp
    qed
  qed
  from this [OF y] show False by simp
qed


lemma planned_search:
  "get_search_results (planned_world enough) n (JArr (q # rest))
     = (Inr (Results [[(''name'', q)]]), [BingSearch q])"
  by (simp add: get_search_results_def search_loop_first strip_props_filter
      planned_world_def proparray_def del: search_loop.simps)

lemma planned_identify:
  "identify_searches (planned_world enough) n None
     = (Inr (Some (JArr [JStr ''q''])), [PrivateChat (Some ''identify_searches'') None])"
  by (simp add: identify_searches_def identify_preamble_def planned_world_def demo_chat_def
      bind_def call_def ok_def add_brackets_def demo_loads_def)

lemma planned_notify:
  "set_status_message (clients (planned_world enough) n) message ''s'' = Inr ()"
  by (simp add: set_status_message_def planned_world_def)

lemma planned_urls:
  \<open>get_urls_to_browse (planned_world enough) n (JArr [JStr ''q''])
     = (Inr ''["u"]'',
        [BingSearch (JStr ''q''),
         PrivateChat None
           (Some ''get_urls_to_browse#\<newline>\<newline>Original System Prompt:\<newline>'')])\<close>
  by (simp add: get_urls_to_browse_def planned_search bind_def ok_def call_def)
     (simp add: planned_world_def demo_dumps_def demo_chat_def)

lemma planned_process:
  "process_url (planned_world enough) n (JStr ''u'') = Inr (Some demo_summary)"
  by (simp add: process_url_def fetch_and_parse_url_def planned_world_def demo_chat_def
      summary_prompt_def summary_text_def demo_dumps_def demo_loads_def demo_summary_def)

lemma planned_summaries:
  \<open>get_article_summaries (planned_world enough) n ''["u"]'' = Inr [demo_summary]\<close>
proof -
  have l: \<open>json_loads (planned_world enough) ''["u"]'' = Some (JArr [JStr ''u''])\<close>
    by (simp add: planned_world_def demo_loads_def)
  have i: "py_iter (JArr [JStr ''u'']) = Inr [JStr ''u'']" by simp
  have a: "\<forall>u\<in>set [JStr ''u'']. \<exists>r. process_url (planned_world enough) n u = Inr r"
    by (simp add: planned_process)
  from article_summaries_returns [OF l i a] show ?thesis
    by (simp add: planned_process)
qed

lemma planned_sufficient:
  "is_background_info_sufficient (planned_world enough) n S
     = (Inr (enough n),
        [PrivateChat
           (Some (''is_background_info_sufficient'' @ replicate (length S) (CHR ''#'')
                    @ ''\<newline>\<newline>Original System Prompt:\<newline>'')) None])"
  by (simp add: is_background_info_sufficient_def planned_world_def demo_dumps_def
      demo_chat_def bind_def call_def ok_def)

lemma planned_round:
  "research_round (planned_world enough) ''s'' n S
     = (Inr ((if enough n then Break else Continue)
               (case S of None \<Rightarrow> [demo_summary] | Some Summaries \<Rightarrow> Summaries @ [demo_summary])),
        demo_round_trace
          (length (case S of None \<Rightarrow> [demo_summary] | Some Summaries \<Rightarrow> Summaries @ [demo_summary])))"
proof -
  have u: \<open>''["u"]'' \<noteq> ''Search error.''\<close> by simp
  from round_complete [OF planned_identify planned_notify planned_urls u planned_notify
      planned_summaries planned_notify planned_sufficient, of enough n S]
  show ?thesis by (simp add: demo_round_trace_def)
qed


text \<open>
  C9. In \<open>demo_world\<close> the Planner proposes a search in every round, no search fails
  and the sufficiency check answers \<^verbatim>\<open>More information needed.\<close> in every round; the
  loop never returns, from any round and any Summaries.
\<close>

theorem loop_without_bound:
  "(\<forall>n. fst (identify_searches demo_world n None) = Inr (Some (JArr [JStr ''q''])))
   \<and> (\<forall>n search. search_bing demo_world n search \<noteq> None)
   \<and> (\<forall>n S. fst (is_background_info_sufficient demo_world n S) = Inr False)
   \<and> (\<forall>n S tr. research_loop demo_world ''s'' n S tr = None)
   \<and> search_and_add_background_references demo_world ''s'' = None"
proof -
  have r: "\<exists>S' t. research_round (planned_world (\<lambda>n. False)) ''s'' n S = (Inr (Continue S'), t)"
    for n S
    by (simp add: planned_round)
  have l: "research_loop demo_world ''s'' n S tr = None" for n S tr
    unfolding demo_world_def by (rule loop_never_returns) (rule r)
  have "search_bing demo_world n search \<noteq> None" for n search
    by (simp add: search_bing_def demo_world_def planned_world_def)
  with l show ?thesis
    by (simp add: search_and_add_background_references_def)
       (simp add: demo_world_def planned_identify planned_sufficient)
qed

lemma bind_call_trace: "\<exists>r t. bind (call ev x) f = (r, ev # t)"
  by (cases x) (simp_all add: bind_def call_def split: prod.splits)

lemma bind_trace_prefix:
  assumes "m = (r0, ev # t0)"
  shows "\<exists>r t. bind m f = (r, ev # t)"
  using assms by (cases r0) (simp_all add: bind_def split: prod.splits)

lemma planner_instruction:
  "\<exists>r t. research_round w p n S
           = (r, PrivateChat (Some (prompts w ''identify_searches'')) None # t)"
proof -
  obtain r0 t0 where "identify_searches w n None
      = (r0, PrivateChat (Some (prompts w ''identify_searches'')) None # t0)"
    using bind_call_trace
    unfolding identify_searches_def identify_preamble_def Let_def option.case by blast
  from bind_trace_prefix [OF this] show ?thesis
    unfolding research_round_def .
qed

lemma planned_after_loop:
  "after_loop (planned_world enough) ''s'' n S
     = (Inr (Some (''background_info_preamble'' @ replicate (length S) (CHR ''#'')
                     @ ''\<newline>\<newline>Original System Prompt:\<newline>\<newline>'')),
        [Notify ''Generating answer...''])"
  by (simp add: after_loop_def notify_def planned_notify bind_def call_def ok_def)
     (simp add: planned_world_def demo_dumps_def)

text \<open>
  C2. In \<open>two_round_world\<close> the sufficiency check fails in the first round and passes
  in the second. The second round's Summary is appended to the first (the bundle holds
  two), but the second round's planning call carries the same instruction as the first,
  \<^verbatim>\<open>prompts["identify_searches"]\<close>, and not the instruction for additional searches
  built from the accumulated Summaries.
\<close>

theorem second_round_repeats_first_plan:
  \<open>search_and_add_background_references two_round_world ''s''
     = Some (Inr (Some ''background_info_preamble##\<newline>\<newline>Original System Prompt:\<newline>\<newline>''),
        [PrivateChat (Some ''identify_searches'') None,
         Notify ''Searching...'',
         BingSearch (JStr ''q''),
         PrivateChat None (Some ''get_urls_to_browse#\<newline>\<newline>Original System Prompt:\<newline>''),
         Notify ''Browsing and analyzing...'',
         Browse ''["u"]'',
         Notify ''Double checking sources...'',
         PrivateChat (Some ''is_background_info_sufficient#\<newline>\<newline>Original System Prompt:\<newline>'') None,
         PrivateChat (Some ''identify_searches'') None,
         Notify ''Searching...'',
         BingSearch (JStr ''q''),
         PrivateChat None (Some ''get_urls_to_browse#\<newline>\<newline>Original System Prompt:\<newline>''),
         Notify ''Browsing and analyzing...'',
         Browse ''["u"]'',
         Notify ''Double checking sources...'',
         PrivateChat (Some ''is_background_info_sufficient##\<newline>\<newline>Original System Prompt:\<newline>'') None,
         Notify ''Generating answer...''])
   \<and> identify_preamble two_round_world (Some [demo_summary])
       = ''identify_additional_searches#\<newline>\<newline>Original System Prompt:\<newline>''\<close>
proof -
  have r0: "research_round two_round_world ''s'' 0 None
              = (Inr (Continue [demo_summary]), demo_round_trace 1)"
    by (simp add: two_round_world_def planned_round)
  have r1: "research_round two_round_world ''s'' (Suc 0) (Some [demo_summary])
              = (Inr (Break [demo_summary, demo_summary]), demo_round_trace 2)"
    by (simp add: two_round_world_def planned_round numeral_2_eq_2)
  have "research_loop two_round_world ''s'' 0 None []
          = research_loop two_round_world ''s'' (Suc 0) (Some [demo_summary])
              ([] @ demo_round_trace 1)"
    by (rule loop_Continue) (rule r0)
  also have "\<dots> = Some (fst (after_loop two_round_world ''s'' (Suc 0) [demo_summary, demo_summary]),
                       ([] @ demo_round_trace 1) @ demo_round_trace 2
                         @ snd (after_loop two_round_world ''s'' (Suc 0) [demo_summary, demo_summary]))"
    by (rule loop_Break) (rule r1)
  finally have l: "research_loop two_round_world ''s'' 0 None []
      = Some (fst (after_loop two_round_world ''s'' (Suc 0) [demo_summary, demo_summary]),
              ([] @ demo_round_trace 1) @ demo_round_trace 2
                @ snd (after_loop two_round_world ''s'' (Suc 0) [demo_summary, demo_summary]))" .
  have a: "after_loop two_round_world ''s'' (Suc 0) [demo_summary, demo_summary]
      = (Inr (Some ''background_info_preamble##\<newline>\<newline>Original System Prompt:\<newline>\<newline>''),
         [Notify ''Generating answer...''])"
    by (simp add: two_round_world_def planned_after_loop)
  have i: "identify_preamble two_round_world (Some [demo_summary])
       = ''identify_additional_searches#\<newline>\<newline>Original System Prompt:\<newline>''"
    by (simp add: identify_preamble_def two_round_world_def planned_world_def demo_dumps_def)
  show ?thesis
    unfolding search_and_add_background_references_def l a
    by (simp add: demo_round_trace_def i numeral_2_eq_2)
qed


lemma identify_no_searches:
  assumes "private_chat w n (Some (identify_preamble w Sm)) None = Inr ''No searches required.''"
  shows "identify_searches w n Sm
           = (Inr None, [PrivateChat (Some (identify_preamble w Sm)) None])"
  using assms by (simp add: identify_searches_def bind_def call_def ok_def)

lemma loop_no_searches:
  assumes "private_chat w n (Some (prompts w ''identify_searches'')) None
             = Inr ''No searches required.''"
  shows "research_loop w p n S tr =
           Some (case set_status_message (clients w n) ''Generating answer...'' p of
                   Inl e \<Rightarrow> Inl e
                 | Inr u \<Rightarrow> Inr None,
                 tr @ [PrivateChat (Some (prompts w ''identify_searches'')) None,
                       Notify ''Generating answer...''])"
proof -
  have "identify_searches w n None
          = (Inr None, [PrivateChat (Some (prompts w ''identify_searches'')) None])"
    using identify_no_searches [of w n None] assms by (simp add: identify_preamble_def)
  note r = round_no_searches [OF this, of p S]
  show ?thesis
  proof (cases "set_status_message (clients w n) ''Generating answer...'' p")
    case (Inl e)
    with r show ?thesis by (simp add: loop_raises)
  next
    case (Inr u)
    with r show ?thesis by (simp add: loop_Return)
  qed
qed

text \<open>
  C4. When the Planner's answer is \<^verbatim>\<open>No searches required.\<close>,
  \<^verbatim>\<open>identify_searches\<close> returns \<^verbatim>\<open>None\<close>, and the loop, in whatever round, makes one
  further call, the notification \<^verbatim>\<open>Generating answer...\<close>: it returns \<^verbatim>\<open>None\<close> when
  the notification is delivered and raises the notification's exception when it is not.
  No search, browse or summarise call is made.
\<close>

theorem no_searches_required_ends_research:
  "(private_chat w n (Some (identify_preamble w Sm)) None = Inr ''No searches required.''
      \<longrightarrow> identify_searches w n Sm
            = (Inr None, [PrivateChat (Some (identify_preamble w Sm)) None]))
   \<and> (private_chat w n (Some (prompts w ''identify_searches'')) None
         = Inr ''No searches required.''
      \<longrightarrow> research_loop w p n S tr =
            Some (case set_status_message (clients w n) ''Generating answer...'' p of
                    Inl e \<Rightarrow> Inl e
                  | Inr u \<Rightarrow> Inr None,
                  tr @ [PrivateChat (Some (prompts w ''identify_searches'')) None,
                        Notify ''Generating answer...'']))"
  using identify_no_searches loop_no_searches by blast

lemma no_search_chat:
  "private_chat no_search_world n system_preamble system_message = Inr ''No searches required.''"
  "private_chat unobserved_world n system_preamble system_message = Inr ''No searches required.''"
  by (simp_all add: unobserved_world_def no_search_world_def)

lemma no_search_prompts:
  "prompts no_search_world k = k" "prompts unobserved_world k = k"
  by (simp_all add: unobserved_world_def no_search_world_def demo_world_def planned_world_def)

theorem no_searches_required_ends_research_witness:
  "search_and_add_background_references no_search_world ''s''
     = Some (Inr None,
             [PrivateChat (Some ''identify_searches'') None, Notify ''Generating answer...''])"
proof -
  have n: "set_status_message (clients no_search_world 0) ''Generating answer...'' ''s'' = Inr ()"
    by (simp add: no_search_world_def demo_world_def planned_notify)
  have "research_loop no_search_world ''s'' 0 None [] =
            Some (case set_status_message (clients no_search_world 0) ''Generating answer...'' ''s'' of
                    Inl e \<Rightarrow> Inl e
                  | Inr u \<Rightarrow> Inr None,
                  [] @ [PrivateChat (Some (prompts no_search_world ''identify_searches'')) None,
                        Notify ''Generating answer...''])"
    using no_searches_required_ends_research [of no_search_world 0 None "''s''" None "[]"]
      no_search_chat(1)
    by blast
  with n show ?thesis
    by (simp add: search_and_add_background_references_def no_search_prompts)
qed

lemma conversation_raises:
  "search_and_add_background_references w p = Some (Inl ex, t) \<Longrightarrow>
     conversation_internal w p = Some (JsonError ex (status_of ex), t)"
  by (simp add: conversation_internal_def)

text \<open>
  The observer has disconnected: the Planner answers \<^verbatim>\<open>No searches required.\<close>, the
  notification raises \<^verbatim>\<open>KeyError\<close>, and the request ends with status 500.
\<close>

theorem disconnected_observer_fails_request:
  "private_chat unobserved_world 0 (Some (prompts unobserved_world ''identify_searches'')) None
     = Inr ''No searches required.''
   \<and> search_and_add_background_references unobserved_world ''s''
       = Some (Inl KeyError,
               [PrivateChat (Some ''identify_searches'') None, Notify ''Generating answer...''])
   \<and> conversation_internal unobserved_world ''s''
       = Some (JsonError KeyError 500,
               [PrivateChat (Some ''identify_searches'') None, Notify ''Generating answer...''])"
proof -
  have n: "set_status_message (clients unobserved_world 0) ''Generating answer...'' ''s''
             = Inl KeyError"
    by (simp add: unobserved_world_def set_status_message_def ws_closed_def)
  have l: "search_and_add_background_references unobserved_world ''s''
       = Some (Inl KeyError,
               [PrivateChat (Some ''identify_searches'') None, Notify ''Generating answer...''])"
    unfolding search_and_add_background_references_def
    by (simp add: loop_no_searches [OF no_search_chat(2)] n no_search_prompts)
  from l conversation_raises [OF l] show ?thesis
    by (simp add: no_search_chat)
qed


lemma urls_forward_sentinel:
  assumes "fst (get_search_results w n searches) = Inr SearchErrorString"
  shows "get_urls_to_browse w n searches
           = (Inr ''Search error.'', snd (get_search_results w n searches))"
  using assms
  by (cases "get_search_results w n searches") (simp add: get_urls_to_browse_def bind_def ok_def)

lemma loop_search_error:
  assumes "identify_searches w n None = (Inr (Some searches), t1)"
    and "set_status_message (clients w n) ''Searching...'' p = Inr ()"
    and "get_urls_to_browse w n searches = (Inr ''Search error.'', t2)"
  shows "research_loop w p n S tr
           = Some (Inr (Some ''Search error.''), tr @ t1 @ Notify ''Searching...'' # t2)"
  by (rule loop_Return) (rule round_search_error [OF assms])

lemma conversation_search_error:
  assumes "search_and_add_background_references w p = Some (Inr (Some ''Search error.''), t)"
  shows "conversation_internal w p
           = Some (case stream_chat w (Some (prompts w ''search_error_preamble'')) of
                     Inl ex \<Rightarrow> JsonError ex (status_of ex)
                   | Inr result \<Rightarrow> JsonLines result,
                   t @ [StreamChat (Some (prompts w ''search_error_preamble''))])"
  using assms by (simp add: conversation_internal_def split: sum.splits)

text \<open>
  C7. \<^verbatim>\<open>get_urls_to_browse\<close> passes the sentinel on without asking the Planner; a
  round whose pipeline yields \<^verbatim>\<open>Search error.\<close> ends the loop at once with that
  string, the round's trace ending with the pipeline's calls; and
  \<^verbatim>\<open>conversation_internal\<close> then calls the user-facing completion with
  \<^verbatim>\<open>prompts["search_error_preamble"]\<close> as the system preamble.
\<close>

theorem search_error_ends_research:
  "(fst (get_search_results w n searches) = Inr SearchErrorString
      \<longrightarrow> get_urls_to_browse w n searches
            = (Inr ''Search error.'', snd (get_search_results w n searches)))
   \<and> (identify_searches w n None = (Inr (Some searches), t1)
        \<and> set_status_message (clients w n) ''Searching...'' p = Inr ()
        \<and> get_urls_to_browse w n searches = (Inr ''Search error.'', t2)
      \<longrightarrow> research_loop w p n S tr
            = Some (Inr (Some ''Search error.''), tr @ t1 @ Notify ''Searching...'' # t2))
   \<and> (search_and_add_background_references w p = Some (Inr (Some ''Search error.''), t)
      \<longrightarrow> conversation_internal w p
            = Some (case stream_chat w (Some (prompts w ''search_error_preamble'')) of
                      Inl ex \<Rightarrow> JsonError ex (status_of ex)
                    | Inr result \<Rightarrow> JsonLines result,
                    t @ [StreamChat (Some (prompts w ''search_error_preamble''))]))"
  using urls_forward_sentinel loop_search_error conversation_search_error by blast

lemma provider_down_identify:
  "identify_searches provider_down_world n None
     = (Inr (Some (JArr [JStr ''q''])), [PrivateChat (Some ''identify_searches'') None])"
  by (simp add: identify_searches_def identify_preamble_def provider_down_world_def
      demo_world_def planned_world_def demo_chat_def bind_def call_def ok_def add_brackets_def
      demo_loads_def)

lemma provider_down_search:
  "get_search_results provider_down_world n (JArr [JStr ''q''])
     = (Inr SearchErrorString, [BingSearch (JStr ''q'')])"
  by (simp add: get_search_results_def search_loop_first provider_down_world_def
      del: search_loop.simps)

theorem search_error_ends_research_witness:
  "conversation_internal provider_down_world ''s''
     = Some (JsonLines ''answer'',
             [PrivateChat (Some ''identify_searches'') None,
              Notify ''Searching...'',
              BingSearch (JStr ''q''),
              StreamChat (Some ''search_error_preamble'')])"
proof -
  note T = search_error_ends_research
    [of provider_down_world 0 "JArr [JStr ''q'']"
        "[PrivateChat (Some ''identify_searches'') None]" "''s''" "[BingSearch (JStr ''q'')]"
        None "[]"
        "[PrivateChat (Some ''identify_searches'') None, Notify ''Searching...'',
          BingSearch (JStr ''q'')]"]
  have n: "set_status_message (clients provider_down_world 0) ''Searching...'' ''s'' = Inr ()"
    by (simp add: provider_down_world_def demo_world_def planned_notify)
  have u: "get_urls_to_browse provider_down_world 0 (JArr [JStr ''q''])
             = (Inr ''Search error.'', [BingSearch (JStr ''q'')])"
    using T by (simp add: provider_down_search)
  have l: "search_and_add_background_references provider_down_world ''s''
             = Some (Inr (Some ''Search error.''),
                     [PrivateChat (Some ''identify_searches'') None, Notify ''Searching...'',
                      BingSearch (JStr ''q'')])"
    using T provider_down_identify [of 0] n u
    by (simp add: search_and_add_background_references_def)
  from T l show ?thesis
    by (simp add: provider_down_world_def demo_world_def planned_world_def)
qed

lemma add_brackets_nonempty:
  assumes "r \<noteq> []"
  shows "add_brackets r
           = Inr ((if hd r \<noteq> CHR ''['' then ''['' else []) @ r
                    @ (if last r \<noteq> CHR '']'' then '']'' else []))"
  using assms by (cases r) (simp_all add: add_brackets_def)

text \<open>
  A non-empty answer other than the sentinel is bracketed and decoded, and a decoding
  failure is raised.
\<close>

lemma identify_decodes:
  assumes "private_chat w n (Some (identify_preamble w Sm)) None = Inr r"
    and "r \<noteq> ''No searches required.''" and "r \<noteq> []"
  shows "fst (identify_searches w n Sm)
           = (case json_loads w ((if hd r \<noteq> CHR ''['' then ''['' else []) @ r
                                   @ (if last r \<noteq> CHR '']'' then '']'' else [])) of
                None \<Rightarrow> Inl JSONDecodeError
              | Some searches \<Rightarrow> Inr (Some searches))"
  using assms
  by (simp add: identify_searches_def bind_def call_def ok_def add_brackets_nonempty
      split: option.splits)

lemma round_identify_raises:
  assumes "identify_searches w n None = (Inl e, t)"
  shows "research_round w p n S = (Inl e, t)"
  using assms by (simp add: research_round_def bind_def)

text \<open>
  C5. The Planner's answer is the empty string: \<^verbatim>\<open>searches[0]\<close> raises
  \<^verbatim>\<open>IndexError\<close> before any bracket is added or anything is decoded, and the request
  ends with status 500.
\<close>

theorem empty_answer_raises_IndexError:
  "private_chat silent_world 0 (Some (identify_preamble silent_world None)) None = Inr []
   \<and> identify_searches silent_world 0 None
       = (Inl IndexError, [PrivateChat (Some ''identify_searches'') None])
   \<and> conversation_internal silent_world ''s''
       = Some (JsonError IndexError 500, [PrivateChat (Some ''identify_searches'') None])"
proof -
  have i: "identify_searches silent_world 0 None
       = (Inl IndexError, [PrivateChat (Some ''identify_searches'') None])"
    by (simp add: identify_searches_def identify_preamble_def silent_world_def demo_world_def
        planned_world_def bind_def call_def add_brackets_def)
  have "search_and_add_background_references silent_world ''s''
          = Some (Inl IndexError, [] @ [PrivateChat (Some ''identify_searches'') None])"
    unfolding search_and_add_background_references_def
    by (rule loop_raises) (rule round_identify_raises [OF i])
  from conversation_raises [OF this] i show ?thesis
    by (simp add: silent_world_def)
qed


end
